theory Spec2Isabelle
  imports Complex_Main "HOL-Library.Word"
begin

section \<open>Arrays\<close>

text \<open>
  The program \<^verbatim>\<open>src/model/val.py\<close> works on numpy arrays. An array is modelled by its
  shape and its elements in row-major order; \<open>wf_array\<close> is numpy's own invariant that
  the number of elements is the product of the shape. Pixel values of labels and
  segmentations are \<^verbatim>\<open>uint8\<close>, hence \<open>8 word\<close>. Logits, probabilities and thresholds
  are IEEE floats in the program and real numbers here: comparison of two floats that
  are not NaN is the comparison of the reals they denote, while rounding in arithmetic
  is not modelled. Metric values, which the program obtains by division, have a type
  of their own below.
\<close>

datatype error = ValueError | IndexError | IOError | NameError | CsvError

record 'a ndarray =
  shape :: "nat list"
  data :: "'a list"

definition wf_array :: "'a ndarray \<Rightarrow> bool" where
  "wf_array a \<longleftrightarrow> length (data a) = prod_list (shape a)"

text \<open>\<^verbatim>\<open>np.ones(shp, dtype='uint8') * c\<close>: every element is \<open>1 * c\<close>.\<close>

definition ones_times :: "nat list \<Rightarrow> 8 word \<Rightarrow> 8 word ndarray" where
  "ones_times shp c = \<lparr>shape = shp, data = replicate (prod_list shp) (1 * c)\<rparr>"

text \<open>\<^verbatim>\<open>a >= t\<close> and \<^verbatim>\<open>a == c\<close>, \<^verbatim>\<open>a != c\<close> against a scalar: element by element.\<close>

definition ge_scalar :: "real ndarray \<Rightarrow> real \<Rightarrow> bool ndarray" where
  "ge_scalar a t = \<lparr>shape = shape a, data = map (\<lambda>x. x \<ge> t) (data a)\<rparr>"

definition eq_scalar :: "'a ndarray \<Rightarrow> 'a \<Rightarrow> bool ndarray" where
  "eq_scalar a c = \<lparr>shape = shape a, data = map (\<lambda>x. x = c) (data a)\<rparr>"

definition ne_scalar :: "'a ndarray \<Rightarrow> 'a \<Rightarrow> bool ndarray" where
  "ne_scalar a c = \<lparr>shape = shape a, data = map (\<lambda>x. x \<noteq> c) (data a)\<rparr>"

text \<open>
  \<^verbatim>\<open>a[m] = v\<close> with a boolean array \<open>m\<close> and a scalar \<open>v\<close>. numpy requires the shape
  of \<open>m\<close> to be a prefix of the shape of \<open>a\<close> and raises IndexError otherwise; an entry
  of \<open>m\<close> selects the whole sub-array below it (one element when the shapes are equal).
\<close>

definition setitem_mask :: "'a ndarray \<Rightarrow> bool ndarray \<Rightarrow> 'a \<Rightarrow> error + 'a ndarray" where
  "setitem_mask a m v =
     (if take (length (shape m)) (shape a) = shape m
      then let inner = prod_list (drop (length (shape m)) (shape a))
           in Inr (a\<lparr>data := map (\<lambda>i. if data m ! (i div inner) then v else data a ! i)
                                  [0..<length (data a)]\<rparr>)
      else Inl IndexError)"

section \<open>Mask post-processor\<close>

text \<open>
  \<^verbatim>\<open>post(logits, label, threshold)\<close>, lines 26 to 37: an array of 127 of the shape of
  the logits, then 255 where the logit reaches the threshold, then 0 where the label
  is 0.
\<close>

definition post :: "real ndarray \<Rightarrow> 8 word ndarray \<Rightarrow> real \<Rightarrow> error + 8 word ndarray" where
  "post logits label threshold =
     (let thresholded = ones_times (shape logits) 127
      in case setitem_mask thresholded (ge_scalar logits threshold) 255 of
           Inl e \<Rightarrow> Inl e
         | Inr thresholded \<Rightarrow> setitem_mask thresholded (eq_scalar label 0) 0)"

text \<open>The number of pixels of an array that hold a given value.\<close>

definition count_pixels :: "'a \<Rightarrow> 'a ndarray \<Rightarrow> nat" where
  "count_pixels v a = length (filter (\<lambda>x. x = v) (data a))"


section \<open>Broadcasting\<close>

text \<open>
  numpy combines two arrays element by element after broadcasting them to a common
  shape: the shapes are aligned at their last dimension, a missing dimension counts as
  1, and two dimensions are compatible when they are equal or one of them is 1.
  Incompatible shapes raise ValueError. \<open>broadcast_dims\<close> works on reversed shapes.
\<close>

fun broadcast_dims :: "nat list \<Rightarrow> nat list \<Rightarrow> nat list option" where
  "broadcast_dims [] ys = Some ys"
| "broadcast_dims xs [] = Some xs"
| "broadcast_dims (x # xs) (y # ys) =
     (if x = y \<or> y = 1 then map_option ((#) x) (broadcast_dims xs ys)
      else if x = 1 then map_option ((#) y) (broadcast_dims xs ys)
      else None)"

definition broadcast_shapes :: "nat list \<Rightarrow> nat list \<Rightarrow> nat list option" where
  "broadcast_shapes s1 s2 = map_option rev (broadcast_dims (rev s1) (rev s2))"

text \<open>
  The elements of an array of shape \<open>s\<close> seen at the shape \<open>t\<close>, where \<open>s\<close> has already
  the length of \<open>t\<close>: a dimension of equal size is walked through, a dimension of size 1
  is repeated.
\<close>

fun broadcast_data :: "nat list \<Rightarrow> nat list \<Rightarrow> 'a list \<Rightarrow> 'a list" where
  "broadcast_data (s # ss) (t # ts) xs =
     (if s = t
      then concat (map (\<lambda>i. broadcast_data ss ts
                               (take (prod_list ss) (drop (i * prod_list ss) xs))) [0..<s])
      else concat (replicate t (broadcast_data ss ts xs)))"
| "broadcast_data ss ts xs = xs"

definition broadcast_to :: "nat list \<Rightarrow> 'a ndarray \<Rightarrow> 'a list" where
  "broadcast_to t a =
     broadcast_data (replicate (length t - length (shape a)) 1 @ shape a) t (data a)"

text \<open>\<^verbatim>\<open>np.logical_and(a, b)\<close> and \<^verbatim>\<open>np.sum\<close> of a boolean array (the number of True).\<close>

definition logical_and :: "bool ndarray \<Rightarrow> bool ndarray \<Rightarrow> error + bool ndarray" where
  "logical_and a b =
     (case broadcast_shapes (shape a) (shape b) of
        None \<Rightarrow> Inl ValueError
      | Some t \<Rightarrow> Inr \<lparr>shape = t,
                        data = map2 (\<and>) (broadcast_to t a) (broadcast_to t b)\<rparr>)"

definition np_sum :: "bool ndarray \<Rightarrow> nat" where
  "np_sum a = length (filter (\<lambda>b. b) (data a))"

section \<open>Floating-point values of the metrics\<close>

text \<open>
  Division in numpy does not raise: a zero divisor gives an infinity or NaN. A metric
  value is therefore a real number or \<open>NonFinite\<close>, which stands for NaN and both
  infinities. An operation with a \<open>NonFinite\<close> operand is taken to be \<open>NonFinite\<close>;
  rounding and overflow of finite values are not modelled.
\<close>

datatype float = Finite real | NonFinite

fun fadd :: "float \<Rightarrow> float \<Rightarrow> float" where
  "fadd (Finite a) (Finite b) = Finite (a + b)"
| "fadd _ _ = NonFinite"

fun fmul :: "float \<Rightarrow> float \<Rightarrow> float" where
  "fmul (Finite a) (Finite b) = Finite (a * b)"
| "fmul _ _ = NonFinite"

fun fdiv :: "float \<Rightarrow> float \<Rightarrow> float" where
  "fdiv (Finite a) (Finite b) = (if b = 0 then NonFinite else Finite (a / b))"
| "fdiv _ _ = NonFinite"

fun fsqrt :: "float \<Rightarrow> float" where
  "fsqrt (Finite a) = (if a < 0 then NonFinite else Finite (sqrt a))"
| "fsqrt NonFinite = NonFinite"

text \<open>A pixel count (a numpy integer) as a float.\<close>

definition of_count :: "nat \<Rightarrow> float" where
  "of_count n = Finite (real n)"

section \<open>Metric calculator\<close>

definition epsilon :: float where
  "epsilon = Finite (1 / 10 ^ 7)"

text \<open>
  Lines 44 to 47 of \<^verbatim>\<open>metrics\<close>: the confusion matrix, in the order true positive,
  false positive, true negative, false negative.
\<close>

definition confusion_matrix ::
  "8 word ndarray \<Rightarrow> 8 word ndarray \<Rightarrow> error + (nat \<times> nat \<times> nat \<times> nat)" where
  "confusion_matrix segmentation label =
     (case logical_and (eq_scalar segmentation 255) (eq_scalar label 255) of
        Inl e \<Rightarrow> Inl e
      | Inr tp \<Rightarrow>
     (case logical_and (eq_scalar segmentation 255) (ne_scalar label 255) of
        Inl e \<Rightarrow> Inl e
      | Inr fp \<Rightarrow>
     (case logical_and (eq_scalar segmentation 127) (eq_scalar label 127) of
        Inl e \<Rightarrow> Inl e
      | Inr tn \<Rightarrow>
     (case logical_and (eq_scalar segmentation 127) (ne_scalar label 127) of
        Inl e \<Rightarrow> Inl e
      | Inr fn \<Rightarrow> Inr (np_sum tp, np_sum fp, np_sum tn, np_sum fn)))))"

text \<open>
  Lines 50 to 62: the evaluation metrics from the four counts. Sums of counts are
  integer sums; adding \<open>epsilon\<close> makes them floats.
\<close>

definition evaluation_metrics :: "nat \<Rightarrow> nat \<Rightarrow> nat \<Rightarrow> nat \<Rightarrow> float list" where
  "evaluation_metrics true_positive false_positive true_negative false_negative =
     (let accuracy = fdiv (of_count (true_positive + true_negative))
                          (fadd (of_count (true_positive + true_negative
                                           + false_positive + false_negative)) epsilon);
          sensitivity = fdiv (of_count true_positive)
                             (fadd (of_count (true_positive + false_negative)) epsilon);
          specificity = fdiv (of_count true_negative)
                             (fadd (of_count (false_positive + true_negative)) epsilon);
          precision = fdiv (of_count true_positive)
                           (fadd (of_count (true_positive + false_positive)) epsilon);
          recall = sensitivity;
          iou = fdiv (of_count true_positive)
                     (fadd (of_count (true_positive + false_positive + false_negative))
                           epsilon);
          f1 = fdiv (fmul (fmul (Finite 2) precision) recall)
                    (fadd (fadd precision recall) epsilon);
          g_mean = fsqrt (fmul sensitivity specificity)
      in [iou, f1, g_mean, accuracy, sensitivity, specificity, precision, recall])"

definition metrics :: "8 word ndarray \<Rightarrow> 8 word ndarray \<Rightarrow> error + float list" where
  "metrics segmentation label =
     (case confusion_matrix segmentation label of
        Inl e \<Rightarrow> Inl e
      | Inr (true_positive, false_positive, true_negative, false_negative) \<Rightarrow>
          Inr (evaluation_metrics true_positive false_positive true_negative false_negative))"

text \<open>
  The reference definition of section 4.2 of the specification, in its own words: the
  four counts are counts of pixels, \<open>\<epsilon>\<close> is added to every denominator, and the
  formulas are those of the specification over the real numbers.
\<close>

definition count_where :: "(8 word \<Rightarrow> 8 word \<Rightarrow> bool) \<Rightarrow> 8 word ndarray \<Rightarrow> 8 word ndarray \<Rightarrow> nat" where
  "count_where p segmentation label =
     length (filter (\<lambda>(s, l). p s l) (zip (data segmentation) (data label)))"

definition spec_metrics :: "8 word ndarray \<Rightarrow> 8 word ndarray \<Rightarrow> real list" where
  "spec_metrics segmentation label =
     (let \<epsilon> = 1 / 10 ^ 7;
          TP = real (count_where (\<lambda>s l. s = 255 \<and> l = 255) segmentation label);
          FP = real (count_where (\<lambda>s l. s = 255 \<and> l \<noteq> 255) segmentation label);
          TN = real (count_where (\<lambda>s l. s = 127 \<and> l = 127) segmentation label);
          FN = real (count_where (\<lambda>s l. s = 127 \<and> l \<noteq> 127) segmentation label);
          accuracy = (TP + TN) / (TP + TN + FP + FN + \<epsilon>);
          sensitivity = TP / (TP + FN + \<epsilon>);
          recall = TP / (TP + FN + \<epsilon>);
          specificity = TN / (FP + TN + \<epsilon>);
          precision = TP / (TP + FP + \<epsilon>);
          iou = TP / (TP + FP + FN + \<epsilon>);
          f1 = 2 * precision * recall / (precision + recall + \<epsilon>);
          g_mean = sqrt (sensitivity * specificity)
      in [iou, f1, g_mean, accuracy, sensitivity, specificity, precision, recall])"

section \<open>Threshold sampler\<close>

text \<open>
  Lines 106 to 111 of \<^verbatim>\<open>main\<close>. \<^verbatim>\<open>logits.min()\<close> and \<^verbatim>\<open>logits.max()\<close> raise ValueError
  on an array without elements. \<^verbatim>\<open>np.linspace(start, stop, num)\<close> returns \<open>num\<close> values
  \<open>start + i * step\<close> with \<open>step = (stop - start) / (num - 1)\<close> and then stores \<open>stop\<close>
  itself as the last one; for \<open>num = 1\<close> it returns \<open>start\<close> alone.
\<close>

definition np_min :: "real ndarray \<Rightarrow> error + real" where
  "np_min a = (if data a = [] then Inl ValueError else Inr (Min (set (data a))))"

definition np_max :: "real ndarray \<Rightarrow> error + real" where
  "np_max a = (if data a = [] then Inl ValueError else Inr (Max (set (data a))))"

definition sigmoid :: "real \<Rightarrow> real" where
  "sigmoid x = 1 / (1 + exp (- x))"

definition linspace :: "real \<Rightarrow> real \<Rightarrow> nat \<Rightarrow> real list" where
  "linspace start stop num =
     (if num = 0 then []
      else if num = 1 then [start]
      else (map (\<lambda>i. real i * ((stop - start) / real (num - 1)) + start) [0..<num])
             [num - 1 := stop])"

definition prob2logit :: "real \<Rightarrow> real" where
  "prob2logit p = ln p - ln (1 - p)"

definition thresholds_from_logits :: "real ndarray \<Rightarrow> nat \<Rightarrow> error + (real list \<times> real list)" where
  "thresholds_from_logits logits num =
     (case np_min logits of
        Inl e \<Rightarrow> Inl e
      | Inr lo \<Rightarrow>
     (case np_max logits of
        Inl e \<Rightarrow> Inl e
      | Inr hi \<Rightarrow>
          (let min_prob = sigmoid lo;
               max_prob = sigmoid hi;
               probs = linspace min_prob max_prob num;
               thresholds = map prob2logit probs
           in Inr (probs, thresholds))))"

section \<open>Evaluation loop\<close>

text \<open>
  The collaborators of \<^verbatim>\<open>main\<close> that are not code of this repository are its
  parameters: reading an image file, evaluating the network and its loss on an image,
  Python's \<^verbatim>\<open>csv.reader\<close>, and the number the random generator draws. The manifest is
  the list \<^verbatim>\<open>lines\<close> that \<^verbatim>\<open>main\<close> reads first.

  \<^verbatim>\<open>csv.reader(ls)\<close> is the list of what a loop over the reader meets, in order: a
  record (\<open>Inr\<close>), or the exception the reader raises in place of a record (\<open>Inl\<close>).
  The records of a reader need not be the lines one by one: a quoted field may run
  over several lines, which then make one record. The reader's \<^verbatim>\<open>line_num\<close> is the number
  of lines it has read, so after a loop through all of \<^verbatim>\<open>csv.reader(ls)\<close> it is the
  length of \<^verbatim>\<open>ls\<close>.
\<close>

record env =
  imread :: "string \<Rightarrow> error + 8 word ndarray"
  predict :: "8 word ndarray \<Rightarrow> error + real ndarray"
  loss_eval :: "8 word ndarray \<Rightarrow> 8 word ndarray \<Rightarrow> error + float"
  csv_reader :: "string list \<Rightarrow> (error + string list) list"
  draw :: nat

definition data_dir :: string where
  "data_dir = ''val/''"

definition number_of_thresholds :: nat where
  "number_of_thresholds = 20"

definition metric_names :: "string list" where
  "metric_names = [''IOU'', ''F1-score'', ''G-mean'', ''Accuracy'',
                   ''Sensitivity'', ''Specificity'', ''Precision'', ''Recall'']"

text \<open>What \<^verbatim>\<open>main\<close> prints, line by line.\<close>

datatype printed =
    Threshold_line nat real real
  | Metric_line string float
  | Blank_line
  | Loss_line float

text \<open>\<^verbatim>\<open>row[k]\<close> raises IndexError beyond the end of the row.\<close>

definition getitem :: "'a list \<Rightarrow> nat \<Rightarrow> error + 'a" where
  "getitem xs k = (if k < length xs then Inr (xs ! k) else Inl IndexError)"

text \<open>\<^verbatim>\<open>np.random.randint(high)\<close>: a number below \<open>high\<close>, ValueError when there is none.\<close>

definition randint :: "nat \<Rightarrow> nat \<Rightarrow> error + nat" where
  "randint high r = (if high = 0 then Inl ValueError else Inr (r mod high))"

text \<open>
  Lines 97 to 111: the loop over the records of the random line. Each round assigns
  \<^verbatim>\<open>probs\<close> and \<^verbatim>\<open>thresholds\<close>; \<open>None\<close> says that they have not been assigned yet.
\<close>

fun sample_rows ::
  "env \<Rightarrow> (real list \<times> real list) option \<Rightarrow> (error + string list) list
     \<Rightarrow> error + (real list \<times> real list) option" where
  "sample_rows ev assigned [] = Inr assigned"
| "sample_rows ev assigned (r # rs) =
     (case r of
        Inl e \<Rightarrow> Inl e
      | Inr row \<Rightarrow>
     (case getitem row 0 of
        Inl e \<Rightarrow> Inl e
      | Inr name \<Rightarrow>
     (case imread ev (data_dir @ name) of
        Inl e \<Rightarrow> Inl e
      | Inr im \<Rightarrow>
     (case predict ev im of
        Inl e \<Rightarrow> Inl e
      | Inr logits \<Rightarrow>
     (case thresholds_from_logits logits number_of_thresholds of
        Inl e \<Rightarrow> Inl e
      | Inr pt \<Rightarrow> sample_rows ev (Some pt) rs)))))"

text \<open>Lines 95 to 111: the thresholds, from the logits of a random example.\<close>

definition sample_thresholds ::
  "env \<Rightarrow> string list \<Rightarrow> error + (real list \<times> real list) option" where
  "sample_thresholds ev lines =
     (case randint (length lines) (draw ev) of
        Inl e \<Rightarrow> Inl e
      | Inr rand_index \<Rightarrow>
          (let rand_line = lines ! rand_index
           in sample_rows ev None (csv_reader ev [rand_line])))"

text \<open>Lines 123 to 138: the metric vector of one example under a threshold.\<close>

definition example_metrics :: "env \<Rightarrow> real \<Rightarrow> string list \<Rightarrow> error + float list" where
  "example_metrics ev threshold row =
     (case getitem row 0 of
        Inl e \<Rightarrow> Inl e
      | Inr image_name \<Rightarrow>
     (case getitem row 1 of
        Inl e \<Rightarrow> Inl e
      | Inr label_name \<Rightarrow>
     (case imread ev (data_dir @ image_name) of
        Inl e \<Rightarrow> Inl e
      | Inr im \<Rightarrow>
     (case imread ev (data_dir @ label_name) of
        Inl e \<Rightarrow> Inl e
      | Inr label \<Rightarrow>
     (case predict ev im of
        Inl e \<Rightarrow> Inl e
      | Inr logits \<Rightarrow>
     (case post logits label threshold of
        Inl e \<Rightarrow> Inl e
      | Inr segmentation \<Rightarrow> metrics segmentation label))))))"

text \<open>
  The loop of lines 122 to 138 over the records of the reader, with
  \<^verbatim>\<open>metric_accum += ...\<close> adding element by element.
\<close>

fun accumulate ::
  "env \<Rightarrow> real \<Rightarrow> float list \<Rightarrow> (error + string list) list \<Rightarrow> error + float list" where
  "accumulate ev threshold metric_accum [] = Inr metric_accum"
| "accumulate ev threshold metric_accum (r # rs) =
     (case r of
        Inl e \<Rightarrow> Inl e
      | Inr row \<Rightarrow>
     (case example_metrics ev threshold row of
        Inl e \<Rightarrow> Inl e
      | Inr m \<Rightarrow> accumulate ev threshold (map2 fadd metric_accum m) rs))"

text \<open>
  Lines 115 to 149, one round of the loop over the thresholds: the header line, the
  pass over \<^verbatim>\<open>csv.reader(lines)\<close> from \<^verbatim>\<open>np.zeros(8)\<close>, the division by the reader's
  \<^verbatim>\<open>line_num\<close>, and the eight metric lines.
\<close>

definition report :: "nat \<Rightarrow> real \<Rightarrow> real \<Rightarrow> float list \<Rightarrow> printed list" where
  "report i threshold prob mean_metrics =
     Threshold_line i threshold prob
       # map2 Metric_line metric_names mean_metrics @ [Blank_line]"

definition validate_threshold ::
  "env \<Rightarrow> string list \<Rightarrow> nat \<Rightarrow> real \<Rightarrow> real \<Rightarrow> printed list \<times> error option" where
  "validate_threshold ev lines i threshold prob =
     (case accumulate ev threshold (replicate 8 (Finite 0)) (csv_reader ev lines) of
        Inl e \<Rightarrow> ([Threshold_line i threshold prob], Some e)
      | Inr metric_accum \<Rightarrow>
          (let line_num = length lines;
               number_of_examples = line_num;
               mean_metrics = map (\<lambda>m. fdiv m (of_count number_of_examples)) metric_accum
           in (report i threshold prob mean_metrics, None)))"

text \<open>
  The loop of line 114. Its first statement reads \<^verbatim>\<open>thresholds[i]\<close>, a NameError when
  the loop of line 97 had no record to assign it from.
\<close>

fun sweep ::
  "env \<Rightarrow> string list \<Rightarrow> (real list \<times> real list) option \<Rightarrow> nat list
     \<Rightarrow> printed list \<times> error option" where
  "sweep ev lines assigned [] = ([], None)"
| "sweep ev lines assigned (i # rest) =
     (case assigned of
        None \<Rightarrow> ([], Some NameError)
      | Some (probs, thresholds) \<Rightarrow>
     (case validate_threshold ev lines i (thresholds ! i) (probs ! i) of
        (out, Some e) \<Rightarrow> (out, Some e)
      | (out, None) \<Rightarrow>
          (case sweep ev lines assigned rest of
             (out', r) \<Rightarrow> (out @ out', r))))"

text \<open>Lines 155 to 161: the pass that adds up the logistic loss.\<close>

fun loss_pass :: "env \<Rightarrow> float \<Rightarrow> (error + string list) list \<Rightarrow> error + float" where
  "loss_pass ev loss_accum [] = Inr loss_accum"
| "loss_pass ev loss_accum (r # rs) =
     (case r of
        Inl e \<Rightarrow> Inl e
      | Inr row \<Rightarrow>
     (case getitem row 0 of
        Inl e \<Rightarrow> Inl e
      | Inr image_name \<Rightarrow>
     (case imread ev (data_dir @ image_name) of
        Inl e \<Rightarrow> Inl e
      | Inr im \<Rightarrow>
     (case getitem row 1 of
        Inl e \<Rightarrow> Inl e
      | Inr label_name \<Rightarrow>
     (case imread ev (data_dir @ label_name) of
        Inl e \<Rightarrow> Inl e
      | Inr lbl \<Rightarrow>
     (case loss_eval ev im lbl of
        Inl e \<Rightarrow> Inl e
      | Inr l \<Rightarrow> loss_pass ev (fadd loss_accum l) rs))))))"

text \<open>
  \<^verbatim>\<open>main\<close> from line 95 on: what it has printed, and the exception that ended it,
  if any.
\<close>

definition main :: "env \<Rightarrow> string list \<Rightarrow> printed list \<times> error option" where
  "main ev lines =
     (case sample_thresholds ev lines of
        Inl e \<Rightarrow> ([], Some e)
      | Inr assigned \<Rightarrow>
     (case sweep ev lines assigned [0..<number_of_thresholds] of
        (out, Some e) \<Rightarrow> (out, Some e)
      | (out, None) \<Rightarrow>
     (case loss_pass ev (Finite 0) (csv_reader ev lines) of
        Inl e \<Rightarrow> (out, Some e)
      | Inr loss_accum \<Rightarrow>
          (out @ [Loss_line (fdiv loss_accum (of_count (length lines)))], None))))"

text \<open>
  The mean of section 4.4 of the specification, in its own words: entry by entry, the
  sum of the vectors in manifest order from a zero accumulator, divided by the number
  of entries processed.
\<close>

definition spec_mean :: "float list list \<Rightarrow> float list" where
  "spec_mean vs =
     map (\<lambda>k. fdiv (foldl fadd (Finite 0) (map (\<lambda>v. v ! k) vs)) (of_count (length vs)))
         [0..<8]"

text \<open>
  A manifest of two lines that are one record: the quoted first field
  \<^verbatim>\<open>"a.png\<close>, line break, \<^verbatim>\<open>"\<close> runs over the line break. \<open>quoted_field_env\<close> has
  the records that Python's reader gives on this manifest and on each of its lines alone
  (and none on other input, which \<^verbatim>\<open>main\<close> does not pass to it here), an image \<^verbatim>\<open>val/a.png\<close> of one pixel with logit 0, and its label \<^verbatim>\<open>val/a_l.png\<close>
  with the pixel 255. The random index drawn is 0.
\<close>

definition quoted_field_manifest :: "string list" where
  "quoted_field_manifest = [CHR 0x22 # ''a.png'', CHR 0x22 # '',a_l.png'']"

definition quoted_field_env :: env where
  "quoted_field_env =
     \<lparr>imread = (\<lambda>path. if path = ''val/a.png'' then Inr \<lparr>shape = [1, 1], data = [0]\<rparr>
                       else if path = ''val/a_l.png'' then Inr \<lparr>shape = [1, 1], data = [255]\<rparr>
                       else Inl IOError),
      predict = (\<lambda>im. Inr \<lparr>shape = [1, 1], data = [0]\<rparr>),
      loss_eval = (\<lambda>im lbl. Inr (Finite 0)),
      csv_reader = (\<lambda>ls. if ls = quoted_field_manifest then [Inr [''a.png'', ''a_l.png'']]
                         else if ls = [CHR 0x22 # ''a.png''] then [Inr [''a.png'']]
                         else if ls = [CHR 0x22 # '',a_l.png''] then [Inr ['',a_l.png'']]
                         else []),
      draw = 0\<rparr>"

section \<open>Properties of the mask post-processor\<close>

lemma setitem_mask_same_shape:
  "shape m = shape a \<Longrightarrow>
   setitem_mask a m v =
     Inr (a\<lparr>data := map (\<lambda>i. if data m ! i then v else data a ! i) [0..<length (data a)]\<rparr>)"
  by (simp add: setitem_mask_def)

lemma post_same_shape:
  assumes "wf_array logits" and "wf_array label" and "shape logits = shape label"
  shows "post logits label threshold =
     Inr \<lparr>shape = shape logits,
          data = map (\<lambda>i. if data label ! i = 0 then 0
                          else if data logits ! i \<ge> threshold then 255 else 127)
                     [0..<length (data logits)]\<rparr>"
  using assms
  by (simp add: post_def ones_times_def setitem_mask_same_shape ge_scalar_def eq_scalar_def wf_array_def)

lemma length_filter_mono:
  "(\<And>x. x \<in> set xs \<Longrightarrow> P x \<Longrightarrow> Q x) \<Longrightarrow> length (filter P xs) \<le> length (filter Q xs)"
  by (induction xs) auto

text \<open>
  Claim C1. For logits and a label of identical shape and any threshold, \<open>post\<close>
  returns an array of that shape whose pixel is 0 wherever the label is 0, whatever the
  logit and the threshold, and elsewhere 255 if the logit is at least the threshold and
  127 otherwise.
\<close>

theorem post_pixelwise:
  assumes "wf_array logits" and "wf_array label" and "shape logits = shape label"
  shows "\<exists>seg. post logits label threshold = Inr seg \<and> shape seg = shape logits \<and>
           wf_array seg \<and>
           (\<forall>i < length (data seg).
              data seg ! i = (if data label ! i = 0 then 0
                              else if data logits ! i \<ge> threshold then 255 else 127))"
  using assms by (simp add: post_same_shape wf_array_def)

theorem post_pixelwise_witness:
  "\<exists>seg. post \<lparr>shape = [2, 2], data = [1/2, -1, 2, 3]\<rparr>
              \<lparr>shape = [2, 2], data = [127, 255, 0, 255]\<rparr> 1 = Inr seg \<and>
         shape seg = [2, 2] \<and> length (data seg) = 4 \<and>
         data seg ! 0 = 127 \<and> data seg ! 1 = 127 \<and> data seg ! 2 = 0 \<and> data seg ! 3 = 255"
proof -
  let ?lg = "\<lparr>shape = [2, 2], data = [1/2, -1, 2, 3::real]\<rparr>"
  let ?lb = "\<lparr>shape = [2, 2], data = [127, 255, 0, 255::8 word]\<rparr>"
  have w1: "wf_array ?lg" and w2: "wf_array ?lb" and s: "shape ?lg = shape ?lb"
    by (simp_all add: wf_array_def)
  from post_pixelwise [OF w1 w2 s, of 1]
  obtain seg where p: "post ?lg ?lb 1 = Inr seg" and sh: "shape seg = [2, 2]"
    and wf: "wf_array seg"
    and px: "\<forall>i < length (data seg). data seg ! i =
               (if data ?lb ! i = 0 then 0 else if data ?lg ! i \<ge> 1 then 255 else 127)"
    by auto
  from wf sh have len: "length (data seg) = 4" by (simp add: wf_array_def)
  from px len have "data seg ! 0 = 127" "data seg ! 1 = 127" "data seg ! 2 = 0" "data seg ! 3 = 255"
    by simp_all
  with p sh len show ?thesis by blast
qed

text \<open>
  Claim C3. For logits and a label of identical shape and any threshold, every pixel of
  the array returned by \<open>post\<close> is 0, 127 or 255.
\<close>

theorem post_values:
  assumes "wf_array logits" and "wf_array label" and "shape logits = shape label"
  shows "\<exists>seg. post logits label threshold = Inr seg \<and> set (data seg) \<subseteq> {0, 127, 255}"
  using assms by (auto simp add: post_same_shape)

theorem post_values_witness:
  "\<exists>seg. post \<lparr>shape = [3], data = [-2, 0, 5]\<rparr> \<lparr>shape = [3], data = [0, 127, 255]\<rparr> 0 = Inr seg \<and>
         set (data seg) \<subseteq> {0, 127, 255}"
proof -
  let ?lg = "\<lparr>shape = [3], data = [-2, 0, 5::real]\<rparr>"
  let ?lb = "\<lparr>shape = [3], data = [0, 127, 255::8 word]\<rparr>"
  have "wf_array ?lg" and "wf_array ?lb" and "shape ?lg = shape ?lb"
    by (simp_all add: wf_array_def)
  then show ?thesis by (rule post_values)
qed

text \<open>
  Claim C5. For fixed logits and label and thresholds \<open>t1 \<le> t2\<close>, the number of pixels
  that \<open>post\<close> sets to 255 under \<open>t2\<close> is at most the number under \<open>t1\<close>.
\<close>

theorem post_count_mono:
  assumes "wf_array logits" and "wf_array label" and "shape logits = shape label"
    and "t1 \<le> t2"
  shows "\<exists>seg1 seg2. post logits label t1 = Inr seg1 \<and> post logits label t2 = Inr seg2 \<and>
           count_pixels 255 seg2 \<le> count_pixels 255 seg1"
  using assms
  by (auto simp add: post_same_shape count_pixels_def filter_map o_def intro!: length_filter_mono)

theorem post_count_mono_witness:
  "\<exists>seg1 seg2.
     post \<lparr>shape = [1, 3], data = [-2, 1, 5]\<rparr> \<lparr>shape = [1, 3], data = [127, 127, 255]\<rparr> 0 = Inr seg1 \<and>
     post \<lparr>shape = [1, 3], data = [-2, 1, 5]\<rparr> \<lparr>shape = [1, 3], data = [127, 127, 255]\<rparr> 3 = Inr seg2 \<and>
     count_pixels 255 seg2 \<le> count_pixels 255 seg1"
proof -
  let ?lg = "\<lparr>shape = [1, 3], data = [-2, 1, 5::real]\<rparr>"
  let ?lb = "\<lparr>shape = [1, 3], data = [127, 127, 255::8 word]\<rparr>"
  have "wf_array ?lg" and "wf_array ?lb" and "shape ?lg = shape ?lb" and "(0::real) \<le> 3"
    by (simp_all add: wf_array_def)
  then show ?thesis by (rule post_count_mono)
qed

section \<open>Properties of the metric calculator\<close>

lemma broadcast_dims_same: "broadcast_dims xs xs = Some xs"
  by (induction xs) auto

lemma broadcast_shapes_same: "broadcast_shapes s s = Some s"
  by (simp add: broadcast_shapes_def broadcast_dims_same)

lemma concat_chunks:
  "concat (map (\<lambda>i. take k (drop (i * k) xs)) [0..<n]) = take (n * k) xs"
proof (induction n)
  case 0
  show ?case by simp
next
  case (Suc n)
  have "take (n * k) xs @ take k (drop (n * k) xs) = take (n * k + k) xs"
    by (simp add: take_add)
  with Suc show ?case by (simp add: add.commute)
qed

lemma broadcast_data_same:
  "length xs = prod_list s \<Longrightarrow> broadcast_data s s xs = xs"
proof (induction s arbitrary: xs)
  case Nil
  show ?case by simp
next
  case (Cons d s)
  have "broadcast_data s s (take (prod_list s) (drop (i * prod_list s) xs))
          = take (prod_list s) (drop (i * prod_list s) xs)" if "i < d" for i
  proof (rule Cons.IH)
    from that have "Suc i \<le> d" by simp
    then have "Suc i * prod_list s \<le> d * prod_list s" by (rule mult_le_mono1)
    with Cons.prems show "length (take (prod_list s) (drop (i * prod_list s) xs)) = prod_list s"
      by simp
  qed
  then have "map (\<lambda>i. broadcast_data s s (take (prod_list s) (drop (i * prod_list s) xs))) [0..<d]
             = map (\<lambda>i. take (prod_list s) (drop (i * prod_list s) xs)) [0..<d]"
    by simp
  then have "broadcast_data (d # s) (d # s) xs = take (d * prod_list s) xs"
    by (simp only: broadcast_data.simps concat_chunks refl if_True)
  with Cons.prems show ?case by simp
qed

lemma broadcast_to_same:
  "wf_array a \<Longrightarrow> broadcast_to (shape a) a = data a"
  by (simp add: broadcast_to_def wf_array_def broadcast_data_same)

lemma logical_and_same_shape:
  assumes "wf_array a" and "wf_array b" and "shape a = shape b"
  shows "logical_and a b = Inr \<lparr>shape = shape a, data = map2 (\<and>) (data a) (data b)\<rparr>"
proof -
  from assms have "broadcast_to (shape b) b = data b" and "broadcast_to (shape b) a = data a"
    using broadcast_to_same [of b] broadcast_to_same [of a] by simp_all
  with assms show ?thesis
    by (simp add: logical_and_def broadcast_shapes_same)
qed


lemma confusion_same_shape:
  assumes "wf_array segmentation" and "wf_array label" and "shape segmentation = shape label"
  shows "confusion_matrix segmentation label =
     Inr (count_where (\<lambda>s l. s = 255 \<and> l = 255) segmentation label,
          count_where (\<lambda>s l. s = 255 \<and> l \<noteq> 255) segmentation label,
          count_where (\<lambda>s l. s = 127 \<and> l = 127) segmentation label,
          count_where (\<lambda>s l. s = 127 \<and> l \<noteq> 127) segmentation label)"
proof -
  have and_count: "np_sum \<lparr>shape = sh, data = map2 (\<and>) (map f (data segmentation)) (map g (data label))\<rparr>
      = count_where (\<lambda>s l. f s \<and> g l) segmentation label" for sh f g
    by (simp add: np_sum_def count_where_def zip_map_map filter_map o_def split_def)
  from assms have wf: "wf_array (eq_scalar segmentation c)" "wf_array (eq_scalar label c)"
      "wf_array (ne_scalar label c)" for c
    by (simp_all add: wf_array_def eq_scalar_def ne_scalar_def)
  from assms have sh: "shape (eq_scalar segmentation c) = shape (eq_scalar label c')"
      "shape (eq_scalar segmentation c) = shape (ne_scalar label c')" for c c'
    by (simp_all add: eq_scalar_def ne_scalar_def)
  show ?thesis
    unfolding confusion_matrix_def
    by (simp add: logical_and_same_shape [OF wf(1) wf(2) sh(1)]
                  logical_and_same_shape [OF wf(1) wf(3) sh(2)])
       (simp add: eq_scalar_def ne_scalar_def and_count)
qed


lemma ratio_bounds:
  fixes a b :: real
  assumes "0 \<le> a" and "0 \<le> b" and "0 < e"
  shows "0 \<le> a / (a + b + e)" and "a / (a + b + e) < 1"
  using assms by simp_all

lemma evaluation_metrics_real:
  fixes tp fp tn fn :: nat
  defines "e \<equiv> 1 / 10 ^ 7 :: real"
  defines "se \<equiv> real tp / (real (tp + fn) + e)"
  defines "sp \<equiv> real tn / (real (fp + tn) + e)"
  defines "pr \<equiv> real tp / (real (tp + fp) + e)"
  shows "evaluation_metrics tp fp tn fn =
     map Finite [real tp / (real (tp + fp + fn) + e),
                 2 * pr * se / (pr + se + e),
                 sqrt (se * sp),
                 real (tp + tn) / (real (tp + tn + fp + fn) + e),
                 se, sp, pr, se]"
proof -
  have e: "0 < e" by (simp add: e_def)
  have d: "real n + e \<noteq> 0" for n :: nat
    using e by (simp add: add_nonneg_pos less_imp_neq [THEN not_sym])
  have se: "0 \<le> se" and sp: "0 \<le> sp" and pr: "0 \<le> pr"
    using e by (simp_all add: se_def sp_def pr_def add_nonneg_pos less_imp_le)
  have d2: "pr + se + e \<noteq> 0"
    using e se pr by (simp add: add_nonneg_pos less_imp_neq [THEN not_sym])
  have g: "\<not> se * sp < 0"
    using se sp by (simp add: not_less)
  have "evaluation_metrics tp fp tn fn =
     [Finite (real tp / (real (tp + fp + fn) + e)),
      Finite (2 * pr * se / (pr + se + e)),
      Finite (sqrt (se * sp)),
      Finite (real (tp + tn) / (real (tp + tn + fp + fn) + e)),
      Finite se, Finite sp, Finite pr, Finite se]"
    unfolding evaluation_metrics_def Let_def of_count_def epsilon_def
      e_def [symmetric]
    apply (simp only: fadd.simps fdiv.simps d if_False)
    apply (simp only: se_def [symmetric] sp_def [symmetric] pr_def [symmetric])
    apply (simp only: fmul.simps fadd.simps fdiv.simps fsqrt.simps d2 g if_False)
    done
  then show ?thesis by simp
qed


lemma metrics_same_shape:
  assumes "wf_array segmentation" and "wf_array label" and "shape segmentation = shape label"
  shows "metrics segmentation label = Inr (map Finite (spec_metrics segmentation label))"
  by (simp only: metrics_def confusion_same_shape [OF assms] sum.case prod.case
        evaluation_metrics_real spec_metrics_def Let_def of_nat_add)

text \<open>
  Claim C2. For a segmentation and a label (arrays of one shape), \<open>metrics\<close> returns the
  vector of the reference definition: the four counts are the pixel counts of the
  specification, \<open>\<epsilon> = 1e-7\<close> is added to every denominator, and the result is
  \<open>[iou, f1, g_mean, accuracy, sensitivity, specificity, precision, recall]\<close> with
  recall equal to sensitivity, every entry a finite value.
\<close>

theorem metrics_refines_spec:
  assumes "wf_array segmentation" and "wf_array label" and "shape segmentation = shape label"
  shows "metrics segmentation label = Inr (map Finite (spec_metrics segmentation label))"
  using assms by (rule metrics_same_shape)

theorem metrics_refines_spec_witness:
  "metrics \<lparr>shape = [2, 2], data = [255, 255, 127, 0]\<rparr>
           \<lparr>shape = [2, 2], data = [255, 127, 127, 0]\<rparr>
     = Inr (map Finite (spec_metrics \<lparr>shape = [2, 2], data = [255, 255, 127, 0]\<rparr>
                                      \<lparr>shape = [2, 2], data = [255, 127, 127, 0]\<rparr>))"
proof -
  let ?sg = "\<lparr>shape = [2, 2], data = [255, 255, 127, 0::8 word]\<rparr>"
  let ?lb = "\<lparr>shape = [2, 2], data = [255, 127, 127, 0::8 word]\<rparr>"
  have "wf_array ?sg" and "wf_array ?lb" and "shape ?sg = shape ?lb"
    by (simp_all add: wf_array_def)
  then show ?thesis by (rule metrics_refines_spec)
qed

lemma evaluation_metrics_bounded:
  "x \<in> set (evaluation_metrics tp fp tn fn) \<Longrightarrow> \<exists>r. x = Finite r \<and> 0 \<le> r \<and> r < 1"
proof -
  define e :: real where "e = 1 / 10 ^ 7"
  define se where "se = real tp / (real (tp + fn) + e)"
  define sp where "sp = real tn / (real (fp + tn) + e)"
  define pr where "pr = real tp / (real (tp + fp) + e)"
  define iou where "iou = real tp / (real (tp + fp + fn) + e)"
  define acc where "acc = real (tp + tn) / (real (tp + tn + fp + fn) + e)"
  have e: "0 < e" by (simp add: e_def)
  have se: "0 \<le> se" "se < 1"
    using ratio_bounds [of "real tp" "real fn" e] e by (simp_all add: se_def)
  have sp: "0 \<le> sp" "sp < 1"
    using ratio_bounds [of "real tn" "real fp" e] e by (simp_all add: sp_def add.commute)
  have pr: "0 \<le> pr" "pr < 1"
    using ratio_bounds [of "real tp" "real fp" e] e by (simp_all add: pr_def)
  have iou: "0 \<le> iou" "iou < 1"
    using ratio_bounds [of "real tp" "real fp + real fn" e] e by (simp_all add: iou_def add.assoc)
  have acc: "0 \<le> acc" "acc < 1"
    using ratio_bounds [of "real tp + real tn" "real fp + real fn" e] e
    by (simp_all add: acc_def add.assoc)
  have "pr * se \<le> pr * 1" using pr se by (intro mult_left_mono) simp_all
  moreover have "pr * se \<le> 1 * se" using pr se by (intro mult_right_mono) simp_all
  ultimately have "2 * pr * se \<le> pr + se" by simp
  then have f1: "0 \<le> 2 * pr * se / (pr + se + e)" "2 * pr * se / (pr + se + e) < 1"
    using pr se e by simp_all
  have "se * sp \<le> 1 * sp" using se sp by (intro mult_right_mono) simp_all
  then have "se * sp < 1" using sp by simp
  then have g: "0 \<le> sqrt (se * sp)" "sqrt (se * sp) < 1"
    using se sp by simp_all
  have "evaluation_metrics tp fp tn fn =
          map Finite [iou, 2 * pr * se / (pr + se + e), sqrt (se * sp), acc, se, sp, pr, se]"
    unfolding iou_def acc_def pr_def sp_def se_def e_def by (rule evaluation_metrics_real)
  moreover assume "x \<in> set (evaluation_metrics tp fp tn fn)"
  ultimately have "x \<in> {Finite iou, Finite (2 * pr * se / (pr + se + e)), Finite (sqrt (se * sp)),
                   Finite acc, Finite se, Finite sp, Finite pr}"
    by auto
  with se sp pr iou acc f1 g show ?thesis by blast
qed

text \<open>
  Claim C4. Whatever vector \<open>metrics\<close> returns has eight entries, each of them finite
  (no division met a zero divisor, no square root a negative number) and in the range
  from 0 to 1; and \<open>metrics\<close> does return a vector for a segmentation and a label of
  one shape, also when some of the counts are zero.
\<close>

theorem metrics_finite_bounded:
  "(\<forall>v. metrics segmentation label = Inr v \<longrightarrow>
        length v = 8 \<and> (\<forall>x \<in> set v. \<exists>r. x = Finite r \<and> 0 \<le> r \<and> r < 1)) \<and>
   (wf_array segmentation \<and> wf_array label \<and> shape segmentation = shape label \<longrightarrow>
        (\<exists>v. metrics segmentation label = Inr v))"
proof (intro conjI allI impI)
  fix v assume "metrics segmentation label = Inr v"
  then obtain tp fp tn fn where v: "v = evaluation_metrics tp fp tn fn"
    by (auto simp: metrics_def split: sum.splits)
  show "length v = 8" by (simp add: v evaluation_metrics_def Let_def)
  show "\<forall>x \<in> set v. \<exists>r. x = Finite r \<and> 0 \<le> r \<and> r < 1"
    unfolding v by (blast intro: evaluation_metrics_bounded)
next
  assume "wf_array segmentation \<and> wf_array label \<and> shape segmentation = shape label"
  then show "\<exists>v. metrics segmentation label = Inr v"
    by (simp add: metrics_same_shape)
qed

theorem metrics_finite_bounded_witness:
  "\<exists>v. metrics \<lparr>shape = [3], data = [127, 127, 127]\<rparr> \<lparr>shape = [3], data = [127, 127, 127]\<rparr> = Inr v \<and>
       length v = 8 \<and> (\<forall>x \<in> set v. \<exists>r. x = Finite r \<and> 0 \<le> r \<and> r < 1)"
proof -
  let ?a = "\<lparr>shape = [3], data = [127, 127, 127::8 word]\<rparr>"
  have "wf_array ?a \<and> wf_array ?a \<and> shape ?a = shape ?a"
    by (simp add: wf_array_def)
  with metrics_finite_bounded [of ?a ?a] show ?thesis by blast
qed

lemma filter_pair_split:
  "length (filter (\<lambda>(s, l). s = c \<and> l = d) zs) + length (filter (\<lambda>(s, l). s = c \<and> l \<noteq> d) zs)
   = length (filter (\<lambda>(s, l). s = c) zs)"
  by (induction zs) auto

lemma count_where_split:
  "count_where (\<lambda>s l. s = c \<and> l = d) segmentation label
   + count_where (\<lambda>s l. s = c \<and> l \<noteq> d) segmentation label
   = count_where (\<lambda>s l. s = c) segmentation label"
  unfolding count_where_def by (rule filter_pair_split)

lemma count_where_fst:
  "length xs = length ys \<Longrightarrow>
   length (filter (\<lambda>(s, l). p s) (zip xs ys)) = length (filter p xs)"
  by (induction xs ys rule: list_induct2) auto

lemma count_where_pixels:
  "length (data segmentation) = length (data label) \<Longrightarrow>
   count_where (\<lambda>s l. s = c) segmentation label = count_pixels c segmentation"
  by (simp add: count_where_def count_pixels_def count_where_fst)

lemma count_two_values:
  "c \<noteq> d \<Longrightarrow>
   length (filter (\<lambda>x. x = c) xs) + length (filter (\<lambda>x. x = d) xs)
   = length (filter (\<lambda>x. x = c \<or> x = d) xs)"
  by (induction xs) auto

text \<open>
  Claim C9. For a segmentation and a label of one shape, a pixel enters at most one of
  the four confusion counts: true and false positives together are the pixels of the
  segmentation that are 255, true and false negatives together those that are 127, so
  the four counts add up to the number of pixels that are 255 or 127, which is at most
  the number of pixels; a pixel with any other value (0 for one) is in no count.
\<close>

theorem confusion_counts_disjoint:
  assumes "wf_array segmentation" and "wf_array label" and "shape segmentation = shape label"
  shows "\<exists>tp fp tn fn.
           confusion_matrix segmentation label = Inr (tp, fp, tn, fn) \<and>
           tp + fp = count_pixels 255 segmentation \<and>
           tn + fn = count_pixels 127 segmentation \<and>
           tp + fp + tn + fn
             = length (filter (\<lambda>s. s = 255 \<or> s = 127) (data segmentation)) \<and>
           tp + fp + tn + fn \<le> length (data segmentation)"
proof -
  from assms have len: "length (data segmentation) = length (data label)"
    by (simp add: wf_array_def)
  let ?tp = "count_where (\<lambda>s l. s = 255 \<and> l = 255) segmentation label"
  let ?fp = "count_where (\<lambda>s l. s = 255 \<and> l \<noteq> 255) segmentation label"
  let ?tn = "count_where (\<lambda>s l. s = 127 \<and> l = 127) segmentation label"
  let ?fn = "count_where (\<lambda>s l. s = 127 \<and> l \<noteq> 127) segmentation label"
  have p: "?tp + ?fp = count_pixels 255 segmentation"
    by (simp only: count_where_split count_where_pixels [OF len])
  have n: "?tn + ?fn = count_pixels 127 segmentation"
    by (simp only: count_where_split count_where_pixels [OF len])
  have "(255::8 word) \<noteq> 127" by simp
  then have "count_pixels 255 segmentation + count_pixels 127 segmentation
      = length (filter (\<lambda>s. s = 255 \<or> s = 127) (data segmentation))"
    unfolding count_pixels_def by (rule count_two_values)
  with p n have t: "?tp + ?fp + ?tn + ?fn
      = length (filter (\<lambda>s. s = 255 \<or> s = 127) (data segmentation))"
    by simp
  then have "?tp + ?fp + ?tn + ?fn \<le> length (data segmentation)"
    by simp
  with p n t confusion_same_shape [OF assms] show ?thesis by blast
qed

theorem confusion_counts_disjoint_witness:
  "\<exists>tp fp tn fn.
     confusion_matrix \<lparr>shape = [2, 2], data = [255, 255, 127, 0]\<rparr>
                      \<lparr>shape = [2, 2], data = [255, 127, 255, 0]\<rparr> = Inr (tp, fp, tn, fn) \<and>
     tp + fp = 2 \<and> tn + fn = 1 \<and> tp + fp + tn + fn \<le> 4"
proof -
  let ?sg = "\<lparr>shape = [2, 2], data = [255, 255, 127, 0::8 word]\<rparr>"
  let ?lb = "\<lparr>shape = [2, 2], data = [255, 127, 255, 0::8 word]\<rparr>"
  have w: "wf_array ?sg" "wf_array ?lb" "shape ?sg = shape ?lb"
    by (simp_all add: wf_array_def)
  have c: "count_pixels 255 ?sg = 2" "count_pixels 127 ?sg = 1" "length (data ?sg) = 4"
    by (simp_all add: count_pixels_def)
  from confusion_counts_disjoint [OF w] show ?thesis
    unfolding c by blast
qed

text \<open>
  Claim C10. On arrays without pixels \<open>metrics\<close> returns the vector of eight zeros:
  the counts are 0, every ratio is \<open>0 / \<epsilon> = 0\<close> and the square root of 0 is 0.
\<close>

theorem metrics_empty:
  assumes "wf_array segmentation" and "wf_array label" and "shape segmentation = shape label"
    and "data segmentation = []"
  shows "metrics segmentation label = Inr (replicate 8 (Finite 0))"
proof -
  have "spec_metrics segmentation label = replicate 8 0"
    using assms(4) by (simp add: spec_metrics_def count_where_def Let_def numeral_eq_Suc)
  then show ?thesis
    by (simp add: metrics_same_shape [OF assms(1-3)])
qed

theorem metrics_empty_witness:
  "metrics \<lparr>shape = [0, 5], data = []\<rparr> \<lparr>shape = [0, 5], data = []\<rparr> = Inr (replicate 8 (Finite 0))"
proof -
  let ?a = "\<lparr>shape = [0, 5], data = [] :: 8 word list\<rparr>"
  have "wf_array ?a" and "wf_array ?a" and "shape ?a = shape ?a" and "data ?a = []"
    by (simp_all add: wf_array_def)
  then show ?thesis by (rule metrics_empty)
qed

section \<open>Properties of the threshold sampler\<close>

lemma sigmoid_bounds: "0 < sigmoid x" "sigmoid x < 1"
  by (simp_all add: sigmoid_def add_pos_pos)

lemma sigmoid_mono: "x \<le> y \<Longrightarrow> sigmoid x \<le> sigmoid y"
  by (simp add: sigmoid_def frac_le add_pos_pos)

lemma sigmoid_prob2logit:
  assumes "0 < p" and "p < 1"
  shows "sigmoid (prob2logit p) = p"
proof -
  have "exp (- (ln p - ln (1 - p))) = (1 - p) / p"
    using assms by (simp add: exp_minus exp_diff field_simps)
  then have "sigmoid (prob2logit p) = 1 / (1 + (1 - p) / p)"
    by (simp add: sigmoid_def prob2logit_def)
  also have "\<dots> = p" using assms by (simp add: field_simps)
  finally show ?thesis .
qed

lemma prob2logit_mono:
  assumes "0 < p" and "p \<le> q" and "q < 1"
  shows "prob2logit p \<le> prob2logit q"
proof -
  have "ln p \<le> ln q" using assms by simp
  moreover have "ln (1 - q) \<le> ln (1 - p)" using assms by simp
  ultimately show ?thesis by (simp add: prob2logit_def)
qed

lemma length_linspace: "length (linspace a b n) = n"
  by (simp add: linspace_def)

lemma linspace_nth:
  assumes "i < n"
  shows "linspace a b n ! i = (if n = 1 then a else a + real i * ((b - a) / real (n - 1)))"
proof (cases "n = 1")
  case True
  with assms show ?thesis by (simp add: linspace_def)
next
  case False
  with assms have n: "1 < n" by simp
  show ?thesis
  proof (cases "i = n - 1")
    case True
    with n show ?thesis by (simp add: linspace_def)
  next
    case False
    with n assms show ?thesis by (simp add: linspace_def add.commute)
  qed
qed

lemma linspace_sorted:
  assumes "a \<le> b"
  shows "sorted (linspace a b n)"
proof -
  have "linspace a b n ! i \<le> linspace a b n ! j" if "i \<le> j" and "j < n" for i j
  proof -
    from that have "i < n" by simp
    have "real i * ((b - a) / real (n - 1)) \<le> real j * ((b - a) / real (n - 1))"
      using that assms by (intro mult_right_mono) simp_all
    with \<open>i < n\<close> \<open>j < n\<close> show ?thesis by (simp add: linspace_nth)
  qed
  then show ?thesis by (simp add: sorted_iff_nth_mono length_linspace)
qed

lemma linspace_range:
  assumes "a \<le> b" and "x \<in> set (linspace a b n)"
  shows "a \<le> x \<and> x \<le> b"
proof -
  from assms(2) obtain i where i: "i < n" and x: "x = linspace a b n ! i"
    by (auto simp: in_set_conv_nth length_linspace)
  show ?thesis
  proof (cases "n = 1")
    case True
    with i x assms show ?thesis by (simp add: linspace_nth)
  next
    case False
    with i have n: "1 < n" by simp
    define t where "t = real i / real (n - 1)"
    have t: "0 \<le> t" "t \<le> 1" using i n by (simp_all add: t_def)
    have "x = a + t * (b - a)" using i n x by (simp add: linspace_nth t_def)
    moreover have "0 \<le> t * (b - a)" using t assms by simp
    moreover have "t * (b - a) \<le> 1 * (b - a)" using t assms by (intro mult_right_mono) simp_all
    ultimately show ?thesis by simp
  qed
qed


text \<open>
  Claim C6. On logits with at least one element the sampler returns, for any number
  \<open>num\<close> of thresholds (20 in the program), \<open>num\<close> probabilities linearly spaced from
  the sigmoid of the least logit to the sigmoid of the greatest, both included, and the
  \<open>num\<close> thresholds \<open>ln p - ln (1 - p)\<close> of these probabilities; both sequences are
  non-decreasing, and the sigmoid of the threshold of a probability \<open>p\<close> is \<open>p\<close> again.
\<close>

theorem sampler_thresholds:
  assumes "data logits \<noteq> []"
  shows "\<exists>probs thresholds.
           thresholds_from_logits logits num = Inr (probs, thresholds) \<and>
           probs = linspace (sigmoid (Min (set (data logits))))
                            (sigmoid (Max (set (data logits)))) num \<and>
           thresholds = map prob2logit probs \<and>
           length probs = num \<and> length thresholds = num \<and>
           (1 < num \<longrightarrow> probs ! 0 = sigmoid (Min (set (data logits))) \<and>
                        probs ! (num - 1) = sigmoid (Max (set (data logits)))) \<and>
           sorted probs \<and> sorted thresholds \<and>
           (\<forall>p \<in> set probs. 0 < p \<and> p < 1 \<and> sigmoid (prob2logit p) = p)"
proof -
  define lo where "lo = Min (set (data logits))"
  define hi where "hi = Max (set (data logits))"
  define probs where "probs = linspace (sigmoid lo) (sigmoid hi) num"
  from assms obtain x where "x \<in> set (data logits)"
    by (cases "data logits") auto
  then have "lo \<le> x" and "x \<le> hi"
    by (simp_all add: lo_def hi_def)
  then have "lo \<le> hi" by simp
  then have le: "sigmoid lo \<le> sigmoid hi" by (rule sigmoid_mono)
  have run: "thresholds_from_logits logits num = Inr (probs, map prob2logit probs)"
    using assms
    by (simp add: thresholds_from_logits_def np_min_def np_max_def probs_def lo_def hi_def Let_def)
  have len: "length probs = num" by (simp add: probs_def length_linspace)
  have ends: "probs ! 0 = sigmoid lo \<and> probs ! (num - 1) = sigmoid hi" if "1 < num"
    using that by (simp add: probs_def linspace_def)
  have sp: "sorted probs" unfolding probs_def using le by (rule linspace_sorted)
  have rng: "0 < p \<and> p < 1" if "p \<in> set probs" for p
  proof -
    from that le have "sigmoid lo \<le> p \<and> p \<le> sigmoid hi"
      unfolding probs_def by (intro linspace_range)
    with sigmoid_bounds(1) [of lo] sigmoid_bounds(2) [of hi] show ?thesis by simp
  qed
  have "prob2logit (probs ! i) \<le> prob2logit (probs ! j)" if "i \<le> j" and "j < length probs" for i j
  proof (rule prob2logit_mono)
    from that have i: "i < length probs" by simp
    then show "0 < probs ! i" using rng by simp
    from that sp show "probs ! i \<le> probs ! j" by (simp add: sorted_iff_nth_mono)
    from that show "probs ! j < 1" using rng by simp
  qed
  then have st: "sorted (map prob2logit probs)"
    by (simp add: sorted_iff_nth_mono)
  have rt: "\<forall>p \<in> set probs. 0 < p \<and> p < 1 \<and> sigmoid (prob2logit p) = p"
    using rng by (simp add: sigmoid_prob2logit)
  from run len ends sp st rt show ?thesis
    unfolding probs_def lo_def hi_def by simp
qed

theorem sampler_thresholds_witness:
  "\<exists>probs thresholds.
     thresholds_from_logits \<lparr>shape = [2], data = [-1, 3]\<rparr> number_of_thresholds
       = Inr (probs, thresholds) \<and>
     length thresholds = 20 \<and> sorted thresholds \<and>
     (\<forall>p \<in> set probs. sigmoid (prob2logit p) = p)"
proof -
  have "data \<lparr>shape = [2], data = [-1, 3::real]\<rparr> \<noteq> []" by simp
  from sampler_thresholds [OF this, of number_of_thresholds]
  show ?thesis unfolding number_of_thresholds_def by blast
qed

section \<open>Properties of the evaluation loop\<close>

text \<open>
  Claim C8. On a manifest without rows the draw of the random index raises, so the
  threshold sampler fails and \<^verbatim>\<open>main\<close> ends with that exception having printed
  nothing: a run needs a manifest of at least one row.
\<close>

theorem empty_manifest_fails:
  "randint (length ([] :: string list)) (draw ev) = Inl ValueError \<and>
   sample_thresholds ev [] = Inl ValueError \<and>
   main ev [] = ([], Some ValueError)"
  by (simp add: main_def sample_thresholds_def randint_def)

lemma length_evaluation_metrics: "length (evaluation_metrics tp fp tn fn) = 8"
  by (simp add: evaluation_metrics_def Let_def)

lemma length_metrics: "metrics segmentation label = Inr m \<Longrightarrow> length m = 8"
  by (auto simp: metrics_def length_evaluation_metrics split: sum.splits)

lemma length_example_metrics: "example_metrics ev threshold row = Inr m \<Longrightarrow> length m = 8"
  by (auto simp: example_metrics_def split: sum.splits intro: length_metrics)

lemma accumulate_records:
  "map (example_metrics ev threshold) rows = map Inr ms \<Longrightarrow>
   accumulate ev threshold acc (map Inr rows) = Inr (foldl (map2 fadd) acc ms)"
proof (induction rows arbitrary: acc ms)
  case Nil
  then show ?case by simp
next
  case (Cons row rows)
  from Cons.prems obtain m ms' where ms: "ms = m # ms'"
    and m: "example_metrics ev threshold row = Inr m"
    and rest: "map (example_metrics ev threshold) rows = map Inr ms'"
    by (cases ms) auto
  from Cons.IH [OF rest] m show ?case by (simp add: ms)
qed

lemma foldl_map2_columns:
  "length acc = n \<Longrightarrow> \<forall>m \<in> set ms. length m = n \<Longrightarrow>
   foldl (map2 fadd) acc ms = map (\<lambda>k. foldl fadd (acc ! k) (map (\<lambda>v. v ! k) ms)) [0..<n]"
proof (induction ms arbitrary: acc)
  case Nil
  then show ?case by (auto simp: list_eq_iff_nth_eq)
next
  case (Cons m ms)
  then have len: "length (map2 fadd acc m) = n" by simp
  from Cons.prems have nth: "map2 fadd acc m ! k = fadd (acc ! k) (m ! k)" if "k < n" for k
    using that by simp
  from Cons.prems have "\<forall>m \<in> set ms. length m = n" by simp
  from Cons.IH [OF len this]
  have "foldl (map2 fadd) (map2 fadd acc m) ms =
          map (\<lambda>k. foldl fadd (map2 fadd acc m ! k) (map (\<lambda>v. v ! k) ms)) [0..<n]" .
  also have "\<dots> = map (\<lambda>k. foldl fadd (fadd (acc ! k) (m ! k)) (map (\<lambda>v. v ! k) ms)) [0..<n]"
    using nth by simp
  finally show ?case by simp
qed

lemma map_Inr_lengths:
  assumes "map (example_metrics ev threshold) rows = map Inr ms"
  shows "length ms = length rows" and "\<forall>m \<in> set ms. length m = 8"
proof -
  from assms have "length (map (example_metrics ev threshold) rows) = length (map Inr ms)"
    by simp
  then show len: "length ms = length rows" by simp
  show "\<forall>m \<in> set ms. length m = 8"
  proof
    fix m assume "m \<in> set ms"
    then obtain j where j: "j < length ms" and m: "m = ms ! j"
      by (auto simp: in_set_conv_nth)
    from assms have "map (example_metrics ev threshold) rows ! j = map Inr ms ! j" by simp
    with j len have "example_metrics ev threshold (rows ! j) = Inr m" by (simp add: m)
    then show "length m = 8" by (rule length_example_metrics)
  qed
qed

text \<open>
  What one round of the sweep prints when no step raises: the sum of the vectors of the
  records, entry by entry, divided by the number of lines.
\<close>

lemma validate_threshold_mean:
  assumes rows: "csv_reader ev lines = map Inr rows"
    and ms: "map (example_metrics ev threshold) rows = map Inr ms"
  shows "validate_threshold ev lines i threshold prob =
           (report i threshold prob
              (map (\<lambda>k. fdiv (foldl fadd (Finite 0) (map (\<lambda>v. v ! k) ms))
                             (of_count (length lines))) [0..<8]), None)"
proof -
  from map_Inr_lengths [OF ms] have l8: "\<forall>m \<in> set ms. length m = 8" by simp
  have "foldl (map2 fadd) (replicate 8 (Finite 0)) ms
          = map (\<lambda>k. foldl fadd (replicate 8 (Finite 0) ! k) (map (\<lambda>v. v ! k) ms)) [0..<8]"
    using l8 by (intro foldl_map2_columns) simp_all
  also have "\<dots> = map (\<lambda>k. foldl fadd (Finite 0) (map (\<lambda>v. v ! k) ms)) [0..<8]"
    by simp
  finally have "accumulate ev threshold (replicate 8 (Finite 0)) (csv_reader ev lines)
      = Inr (map (\<lambda>k. foldl fadd (Finite 0) (map (\<lambda>v. v ! k) ms)) [0..<8])"
    by (simp add: rows accumulate_records [OF ms])
  then show ?thesis
    by (simp add: validate_threshold_def Let_def o_def)
qed

lemma sweep_reports:
  "\<forall>i \<in> set idx. validate_threshold ev lines i (thresholds ! i) (probs ! i) = (f i, None) \<Longrightarrow>
   sweep ev lines (Some (probs, thresholds)) idx = (concat (map f idx), None)"
  by (induction idx) simp_all


lemma linspace_constant: "i < n \<Longrightarrow> linspace a a n ! i = a"
  by (simp add: linspace_nth)

lemma quoted_field_sample:
  "\<exists>probs thresholds.
     sample_thresholds quoted_field_env quoted_field_manifest = Inr (Some (probs, thresholds)) \<and>
     (\<forall>i < number_of_thresholds. probs ! i = 1 / 2 \<and> thresholds ! i = 0)"
proof -
  let ?probs = "linspace (1 / 2) (1 / 2) number_of_thresholds"
  have "thresholds_from_logits \<lparr>shape = [1, 1], data = [0]\<rparr> number_of_thresholds
          = Inr (?probs, map prob2logit ?probs)"
    by (simp add: thresholds_from_logits_def np_min_def np_max_def sigmoid_def Let_def)
  then have "sample_thresholds quoted_field_env quoted_field_manifest
               = Inr (Some (?probs, map prob2logit ?probs))"
    by (simp add: sample_thresholds_def randint_def quoted_field_env_def
          quoted_field_manifest_def getitem_def data_dir_def)
  moreover have "?probs ! i = 1 / 2 \<and> map prob2logit ?probs ! i = 0"
    if "i < number_of_thresholds" for i
    using that by (simp add: linspace_constant length_linspace prob2logit_def)
  ultimately show ?thesis by blast
qed

lemma quoted_field_example:
  "example_metrics quoted_field_env 0 [''a.png'', ''a_l.png''] = Inr (evaluation_metrics 1 0 0 0)"
proof -
  let ?lg = "\<lparr>shape = [1, 1], data = [0::real]\<rparr>"
  let ?lb = "\<lparr>shape = [1, 1], data = [255::8 word]\<rparr>"
  have wf: "wf_array ?lg" "wf_array ?lb" "shape ?lg = shape ?lb"
    by (simp_all add: wf_array_def)
  have "post ?lg ?lb 0 = Inr \<lparr>shape = shape ?lg,
          data = map (\<lambda>i. if data ?lb ! i = 0 then 0
                          else if data ?lg ! i \<ge> 0 then 255 else 127)
                     [0..<length (data ?lg)]\<rparr>"
    using wf by (rule post_same_shape)
  then have post: "post ?lg ?lb 0 = Inr ?lb"
    by simp
  have "confusion_matrix ?lb ?lb = Inr (1, 0, 0, 0)"
    using wf by (simp add: confusion_same_shape wf_array_def count_where_def)
  then have "metrics ?lb ?lb = Inr (evaluation_metrics 1 0 0 0)"
    by (simp add: metrics_def)
  with post show ?thesis
    by (simp add: example_metrics_def quoted_field_env_def getitem_def data_dir_def)
qed

lemma quoted_field_round:
  "validate_threshold quoted_field_env quoted_field_manifest i 0 (1 / 2)
     = (report i 0 (1 / 2) (map (\<lambda>m. fdiv m (Finite 2)) (evaluation_metrics 1 0 0 0)), None)"
proof -
  define M where "M = evaluation_metrics 1 0 0 0"
  have rows: "csv_reader quoted_field_env quoted_field_manifest = map Inr [[''a.png'', ''a_l.png'']]"
    by (simp add: quoted_field_env_def)
  have ms: "map (example_metrics quoted_field_env 0) [[''a.png'', ''a_l.png'']] = map Inr [M]"
    by (simp add: quoted_field_example M_def)
  have "\<exists>rs. M = map Finite rs"
    unfolding M_def by (rule exI) (rule evaluation_metrics_real)
  then obtain rs where M: "M = map Finite rs" by blast
  have "length M = 8" by (simp add: M_def length_evaluation_metrics)
  with M have len: "length rs = 8" by simp
  have "map (\<lambda>k. fdiv (foldl fadd (Finite 0) (map (\<lambda>v. v ! k) [M])) (of_count 2)) [0..<8]
          = map (\<lambda>k. fdiv (M ! k) (Finite 2)) [0..<8]"
    by (rule map_cong) (simp_all add: M len of_count_def)
  also have "\<dots> = map (\<lambda>m. fdiv m (Finite 2)) M"
    using \<open>length M = 8\<close> by (simp add: list_eq_iff_nth_eq)
  finally have mean: "map (\<lambda>k. fdiv (foldl fadd (Finite 0) (map (\<lambda>v. v ! k) [M])) (of_count 2)) [0..<8]
                  = map (\<lambda>m. fdiv m (Finite 2)) M" .
  have "length quoted_field_manifest = 2"
    by (simp add: quoted_field_manifest_def)
  with mean have "map (\<lambda>k. fdiv (foldl fadd (Finite 0) (map (\<lambda>v. v ! k) [M]))
                           (of_count (length quoted_field_manifest))) [0..<8]
                  = map (\<lambda>m. fdiv m (Finite 2)) M"
    by (simp only:)
  with validate_threshold_mean [OF rows ms, of i "1 / 2"] show ?thesis
    by (simp add: M_def)
qed


text \<open>
  Claim C7. The mean vector reported for a threshold is to be the sum of the metric
  vectors of the manifest entries processed, divided by the number of those entries.
  \<^verbatim>\<open>main\<close> divides by the reader's \<^verbatim>\<open>line_num\<close> instead, which it calls
  \<^verbatim>\<open>number_of_examples\<close>. On the manifest of two lines that are one record, the loop
  processes one entry, whose metric vector has the IOU \<open>10000000 / 10000001\<close>, which is
  also the mean over the entries processed; the run ends without an exception and
  prints, for every threshold, that vector divided by 2: an IOU of
  \<open>5000000 / 10000001\<close>.
\<close>

theorem mean_divides_by_line_count:
  "length quoted_field_manifest = 2 \<and>
   csv_reader quoted_field_env quoted_field_manifest = [Inr [''a.png'', ''a_l.png'']] \<and>
   example_metrics quoted_field_env 0 [''a.png'', ''a_l.png'']
     = Inr (evaluation_metrics 1 0 0 0) \<and>
   spec_mean [evaluation_metrics 1 0 0 0] ! 0 = Finite (10000000 / 10000001) \<and>
   main quoted_field_env quoted_field_manifest
     = (concat (map (\<lambda>i. report i 0 (1 / 2)
                            (map (\<lambda>m. fdiv m (Finite 2)) (evaluation_metrics 1 0 0 0)))
                    [0..<number_of_thresholds]) @ [Loss_line (Finite 0)], None) \<and>
   take 2 (fst (main quoted_field_env quoted_field_manifest))
     = [Threshold_line 0 0 (1 / 2), Metric_line ''IOU'' (Finite (5000000 / 10000001))]"
proof -
  define half where "half = map (\<lambda>m. fdiv m (Finite 2)) (evaluation_metrics 1 0 0 0)"
  define out where "out = concat (map (\<lambda>i. report i 0 (1 / 2) half) [0..<number_of_thresholds])"
  have len: "length quoted_field_manifest = 2"
    by (simp add: quoted_field_manifest_def)
  have rows: "csv_reader quoted_field_env quoted_field_manifest = [Inr [''a.png'', ''a_l.png'']]"
    by (simp add: quoted_field_env_def)
  have spec: "spec_mean [evaluation_metrics 1 0 0 0] ! 0 = Finite (10000000 / 10000001)"
    by (simp add: spec_mean_def evaluation_metrics_real of_count_def upt_rec [of 0])
  from quoted_field_sample obtain probs thresholds
    where st: "sample_thresholds quoted_field_env quoted_field_manifest
                 = Inr (Some (probs, thresholds))"
      and pt: "\<forall>i < number_of_thresholds. probs ! i = 1 / 2 \<and> thresholds ! i = 0"
    by blast
  have "\<forall>i \<in> set [0..<number_of_thresholds].
          validate_threshold quoted_field_env quoted_field_manifest i (thresholds ! i) (probs ! i)
            = (report i 0 (1 / 2) half, None)"
  proof
    fix i assume "i \<in> set [0..<number_of_thresholds]"
    then have "i < number_of_thresholds" by simp
    with pt have "probs ! i = 1 / 2" and "thresholds ! i = 0" by blast+
    then show "validate_threshold quoted_field_env quoted_field_manifest i
                 (thresholds ! i) (probs ! i) = (report i 0 (1 / 2) half, None)"
      by (simp only: quoted_field_round half_def)
  qed
  then have sw: "sweep quoted_field_env quoted_field_manifest (Some (probs, thresholds))
                   [0..<number_of_thresholds] = (out, None)"
    unfolding out_def by (rule sweep_reports)
  have loss: "loss_pass quoted_field_env (Finite 0)
                (csv_reader quoted_field_env quoted_field_manifest) = Inr (Finite 0)"
    by (simp add: rows) (simp add: quoted_field_env_def getitem_def data_dir_def)
  have main: "main quoted_field_env quoted_field_manifest = (out @ [Loss_line (Finite 0)], None)"
    by (simp add: main_def st sw loss len of_count_def)
  have "half ! 0 = Finite (5000000 / 10000001)"
    by (simp add: half_def evaluation_metrics_real)
  moreover have "length half = 8"
    by (simp add: half_def length_evaluation_metrics)
  ultimately have "take 2 (report 0 0 (1 / 2) half)
      = [Threshold_line 0 0 (1 / 2), Metric_line ''IOU'' (Finite (5000000 / 10000001))]"
    by (cases half) (simp_all add: report_def metric_names_def)
  moreover have "out = report 0 0 (1 / 2) half
                 @ concat (map (\<lambda>i. report i 0 (1 / 2) half) [1..<number_of_thresholds])"
    by (simp add: out_def number_of_thresholds_def upt_rec [of 0])
  moreover have "2 \<le> length (report 0 0 (1 / 2) half)"
    using \<open>length half = 8\<close> by (simp add: report_def metric_names_def)
  ultimately have "take 2 (out @ [Loss_line (Finite 0)])
      = [Threshold_line 0 0 (1 / 2), Metric_line ''IOU'' (Finite (5000000 / 10000001))]"
    by simp
  with len rows spec main quoted_field_example show ?thesis
    by (simp add: out_def half_def)
qed

end
